theory Spec2Isabelle
  imports Main "HOL-Library.Sublist"
begin

section \<open>Strings\<close>

text \<open>
  Python strings are sequences of code points. They are modelled as \<open>string\<close>, each
  \<open>char\<close> standing for one code point below 256, so \<open>length\<close> is Python's \<open>len\<close> on
  that range. The character classes below are those of \<open>str.isspace\<close>, of the regular
  expression classes \<open>\s\<close> and \<open>\d\<close>, and of \<open>str.lower\<close>, restricted to that range.
\<close>

definition isspace :: "char \<Rightarrow> bool" where
  "isspace c = (c \<in> set [CHR 0x09, CHR 0x0A, CHR 0x0B, CHR 0x0C, CHR 0x0D,
     CHR 0x1C, CHR 0x1D, CHR 0x1E, CHR 0x1F, CHR 0x20, CHR 0x85, CHR 0xA0])"

definition isdigit :: "char \<Rightarrow> bool" where
  "isdigit c = (let n = of_char c :: nat in 48 \<le> n \<and> n \<le> 57)"

definition lower_char :: "char \<Rightarrow> char" where
  "lower_char c = (let n = of_char c :: nat in
     if (65 \<le> n \<and> n \<le> 90) \<or> (192 \<le> n \<and> n \<le> 222 \<and> n \<noteq> 215)
     then char_of (n + 32) else c)"

text \<open>\<open>s.lower()\<close>\<close>

definition lower :: "string \<Rightarrow> string" where
  "lower s = map lower_char s"

text \<open>\<open>s.replace(c, '')\<close> and \<open>s.replace(c, d)\<close> for single characters \<open>c\<close>, \<open>d\<close>\<close>

definition remove_char :: "char \<Rightarrow> string \<Rightarrow> string" where
  "remove_char c s = filter (\<lambda>x. x \<noteq> c) s"

definition replace_char :: "char \<Rightarrow> char \<Rightarrow> string \<Rightarrow> string" where
  "replace_char c d s = map (\<lambda>x. if x = c then d else x) s"

text \<open>\<open>s.strip()\<close>\<close>

definition strip :: "string \<Rightarrow> string" where
  "strip s = rev (dropWhile isspace (rev (dropWhile isspace s)))"

text \<open>\<open>sub in s\<close>\<close>

fun contains :: "string \<Rightarrow> string \<Rightarrow> bool" where
  "contains sub [] = (sub = [])"
| "contains sub (c # cs) = (prefix sub (c # cs) \<or> contains sub cs)"

text \<open>\<open>sep.join(xs)\<close>\<close>

fun join :: "string \<Rightarrow> string list \<Rightarrow> string" where
  "join sep [] = []"
| "join sep [x] = x"
| "join sep (x # y # ys) = x @ sep @ join sep (y # ys)"

text \<open>
  The slice \<open>xs[:n]\<close> for an integer \<open>n\<close>: a negative \<open>n\<close> counts from the end.
\<close>

definition slice_to :: "int \<Rightarrow> 'a list \<Rightarrow> 'a list" where
  "slice_to n xs = (if 0 \<le> n then take (nat n) xs else take (length xs - nat (- n)) xs)"

text \<open>
  The maximal runs of non-whitespace characters of a string, in order (the matches of
  \<open>\S+\<close>): how the parser library splits a \<open>class\<close> attribute into its values. The first
  argument is the run read so far.
\<close>

fun nonwhitespace :: "string \<Rightarrow> string \<Rightarrow> string list" where
  "nonwhitespace cur [] = (if cur = [] then [] else [cur])"
| "nonwhitespace cur (c # cs) =
     (if isspace c then (if cur = [] then nonwhitespace [] cs else cur # nonwhitespace [] cs)
      else nonwhitespace (cur @ [c]) cs)"

text \<open>
  \<open>re.sub(r'\s+', ' ', s)\<close>: every maximal run of whitespace becomes one space. The flag
  says that the previous character was whitespace, so the run has been replaced already.
\<close>

fun collapse_ws :: "bool \<Rightarrow> string \<Rightarrow> string" where
  "collapse_ws prev [] = []"
| "collapse_ws prev (c # cs) =
     (if isspace c then (if prev then collapse_ws True cs else CHR '' '' # collapse_ws True cs)
      else c # collapse_ws False cs)"

text \<open>
  \<open>re.search(r'[\d\s\-\+\(\)]{10,}', s)\<close>: the leftmost position from which at least ten
  characters of the class follow, matched greedily; \<open>None\<close> when there is none.
\<close>

definition phone_char :: "char \<Rightarrow> bool" where
  "phone_char c = (isdigit c \<or> isspace c \<or> c \<in> set [CHR ''-'', CHR ''+'', CHR ''('', CHR '')''])"

fun phone_search :: "string \<Rightarrow> string option" where
  "phone_search [] = None"
| "phone_search (c # cs) =
     (let m = takeWhile phone_char (c # cs)
      in if 10 \<le> length m then Some m else phone_search cs)"

section \<open>Parsed markup\<close>

text \<open>
  What the parser library hands to the program: a tree of strings and elements, an
  element having a tag name, its attributes and its children. The document itself is an
  element whose children are the top-level nodes. Every string has the class the parser
  gave it: \<open>NavigableString\<close> for ordinary text, and a class of its own for a comment,
  for the content of a \<open>script\<close>, \<open>style\<close> or \<open>template\<close> element, and so on.
\<close>

datatype string_kind =
    NavigableString | CData | Comment | Script | Stylesheet | TemplateString
  | RubyTextString | RubyParenthesisString | Doctype | Declaration | ProcessingInstruction

datatype node = Text string_kind string | Element string "(string \<times> string) list" "node list"

fun descendants :: "node \<Rightarrow> node list" where
  "descendants (Text k s) = []"
| "descendants (Element t as cs) = concat (map (\<lambda>c. c # descendants c) cs)"

fun tag_name :: "node \<Rightarrow> string option" where
  "tag_name (Text k s) = None"
| "tag_name (Element t as cs) = Some t"

text \<open>\<open>tag.get(key)\<close>\<close>

fun get_attr :: "string \<Rightarrow> node \<Rightarrow> string option" where
  "get_attr a (Text k s) = None"
| "get_attr a (Element t as cs) = map_of as a"

text \<open>
  The filter \<open>class_=c\<close> for a string \<open>c\<close>: some value of the element's \<open>class\<close>
  attribute is \<open>c\<close>, or the values joined by spaces are.
\<close>

definition has_class :: "string \<Rightarrow> node \<Rightarrow> bool" where
  "has_class c n =
     (case get_attr ''class'' n of
        None \<Rightarrow> False
      | Some v \<Rightarrow> (let vs = nonwhitespace [] v in c \<in> set vs \<or> join '' '' vs = c))"

text \<open>
  The filter \<open>{'class': re.compile('.*listing.*|.*store.*|.*business.*')}\<close>: the pattern
  is searched in each value of the \<open>class\<close> attribute, then in the values joined by spaces.
\<close>

definition loose_pattern :: "string \<Rightarrow> bool" where
  "loose_pattern s = (contains ''listing'' s \<or> contains ''store'' s \<or> contains ''business'' s)"

definition class_matches_loose :: "node \<Rightarrow> bool" where
  "class_matches_loose n =
     (case get_attr ''class'' n of
        None \<Rightarrow> False
      | Some v \<Rightarrow> (let vs = nonwhitespace [] v
                  in list_ex loose_pattern vs \<or> loose_pattern (join '' '' vs)))"

text \<open>The filter \<open>href=re.compile(r'http')\<close>\<close>

definition href_matches_http :: "node \<Rightarrow> bool" where
  "href_matches_http n = (case get_attr ''href'' n of None \<Rightarrow> False | Some h \<Rightarrow> contains ''http'' h)"

text \<open>The filter \<open>href=True\<close>\<close>

definition has_href :: "node \<Rightarrow> bool" where
  "has_href n = (get_attr ''href'' n \<noteq> None)"

text \<open>
  \<open>tag.find_all(name, ...)\<close>: the descendants with that tag name that pass the filter, in
  document order; \<open>tag.find(name, ...)\<close> is the first of them.
\<close>

definition find_all :: "string \<Rightarrow> (node \<Rightarrow> bool) \<Rightarrow> node \<Rightarrow> node list" where
  "find_all name p n = filter (\<lambda>d. tag_name d = Some name \<and> p d) (descendants n)"

definition find_first :: "string \<Rightarrow> (node \<Rightarrow> bool) \<Rightarrow> node \<Rightarrow> node option" where
  "find_first name p n = (case find_all name p n of [] \<Rightarrow> None | d # ds \<Rightarrow> Some d)"

text \<open>\<open>a or b\<close> on the results of \<open>find\<close>: an element is always true.\<close>

definition or_else :: "'a option \<Rightarrow> 'a option \<Rightarrow> 'a option" where
  "or_else a b = (case a of None \<Rightarrow> b | Some x \<Rightarrow> Some x)"

text \<open>
  \<open>tag.get_text(strip=True)\<close>: the strings below the element whose class is one the
  element is interested in, each stripped, the empty ones dropped, concatenated. An
  element is interested in ordinary text and CDATA sections, unless it is one of the
  elements that hold strings of a class of their own; so the text of a listing leaves out
  comments and what stands inside \<open>script\<close>, \<open>style\<close> and \<open>template\<close> elements. On a
  string, the result is the string stripped when it is ordinary text or CDATA, and empty
  otherwise.
\<close>

definition interesting_string_types :: "string \<Rightarrow> string_kind list" where
  "interesting_string_types name =
     (if name = ''rt'' then [RubyTextString]
      else if name = ''rp'' then [RubyParenthesisString]
      else if name = ''style'' then [Stylesheet]
      else if name = ''script'' then [Script]
      else if name = ''template'' then [TemplateString]
      else [NavigableString, CData])"

fun all_strings :: "string_kind list \<Rightarrow> node list \<Rightarrow> string list" where
  "all_strings types [] = []"
| "all_strings types (Text k s # ns) =
     (if k \<in> set types then s # all_strings types ns else all_strings types ns)"
| "all_strings types (Element t as cs # ns) = all_strings types ns"

fun get_text :: "node \<Rightarrow> string" where
  "get_text (Text k s) = (if k \<in> set [NavigableString, CData] then strip s else [])"
| "get_text (Element t as cs) =
     concat (filter (\<lambda>s. s \<noteq> [])
       (map strip (all_strings (interesting_string_types t) (descendants (Element t as cs)))))"

section \<open>The scraper\<close>

text \<open>One row of the returned table, with the columns of the source in their order.\<close>

record business =
  business_name :: string
  email_id :: string
  phone_number :: string
  location_address :: string
  business_category :: string
  website_url :: string
  social_media_profiles :: string

text \<open>
  The messages the function shows through the user interface, in the order of the source.
  Each constructor is one call site; its arguments are the values formatted into the text.
\<close>

datatype diag =
    SearchingInfo string string
  | FailedToFetchError int
  | PrimaryMissWarning
  | AnotherMethodWarning
  | FoundInfo nat
  | ExtractedText int string
  | NoValidDataError
  | ScrapingError string

text \<open>
  The response of the HTTP client, as far as the function reads it: the status code and
  the body.
\<close>

record response =
  status_code :: int
  content :: string

text \<open>A call either returns a value or raises an exception, which carries a message.\<close>

datatype 'a outcome = Returned 'a | Raised string

subsection \<open>Fields of one listing\<close>

text \<open>Lines 76 to 86: the business name.\<close>

definition primary_name_tag :: "node \<Rightarrow> node option" where
  "primary_name_tag listing =
     or_else (find_first ''span'' (has_class ''jcn'') listing)
             (find_first ''a'' (has_class ''jcn'') listing)"

definition heading_name_tag :: "node \<Rightarrow> node option" where
  "heading_name_tag listing =
     or_else (find_first ''h2'' (\<lambda>d. True) listing) (find_first ''h3'' (\<lambda>d. True) listing)"

definition extract_name :: "node \<Rightarrow> string" where
  "extract_name listing =
     (let name = (case primary_name_tag listing of None \<Rightarrow> ''N/A'' | Some t \<Rightarrow> get_text t)
      in if name = ''N/A''
         then (case heading_name_tag listing of None \<Rightarrow> name | Some t \<Rightarrow> get_text t)
         else name)"

text \<open>Lines 88 to 95: the phone number.\<close>

definition phone_tag :: "node \<Rightarrow> node option" where
  "phone_tag listing =
     or_else (find_first ''p'' (has_class ''contact-info'') listing)
             (find_first ''span'' (has_class ''mobilesv'') listing)"

definition extract_phone :: "node \<Rightarrow> string" where
  "extract_phone listing =
     (case phone_tag listing of
        None \<Rightarrow> ''N/A''
      | Some t \<Rightarrow> (case phone_search (get_text t) of None \<Rightarrow> ''N/A'' | Some m \<Rightarrow> strip m))"

text \<open>Lines 97 to 103: the address.\<close>

definition extract_address :: "node \<Rightarrow> string" where
  "extract_address listing =
     (case or_else (find_first ''p'' (has_class ''address'') listing)
                   (find_first ''span'' (has_class ''mrehover'') listing) of
        None \<Rightarrow> ''N/A''
      | Some t \<Rightarrow> collapse_ws False (get_text t))"

text \<open>Lines 105 to 111: the website.\<close>

definition extract_website :: "node \<Rightarrow> string" where
  "extract_website listing =
     (case find_first ''a'' href_matches_http listing of
        None \<Rightarrow> ''N/A''
      | Some t \<Rightarrow>
          (case get_attr ''href'' t of
             None \<Rightarrow> ''N/A''
           | Some href \<Rightarrow> if href \<noteq> [] \<and> \<not> contains ''justdial'' href then href else ''N/A''))"

text \<open>Lines 116 to 120: the generated e-mail address.\<close>

definition generate_email :: "string \<Rightarrow> string" where
  "generate_email name =
     (if name \<noteq> ''N/A''
      then ''info@'' @ take 15 (remove_char (CHR ''-'') (remove_char (CHR '' '') (lower name))) @ ''.com''
      else ''N/A'')"

text \<open>Lines 122 to 133: the social media links.\<close>

fun social_links :: "node list \<Rightarrow> string list" where
  "social_links [] = []"
| "social_links (link # links) =
     (let href = (case get_attr ''href'' link of None \<Rightarrow> [] | Some h \<Rightarrow> h)
      in if contains ''facebook.com'' href then (''Facebook: '' @ href) # social_links links
         else if contains ''instagram.com'' href then (''Instagram: '' @ href) # social_links links
         else social_links links)"

definition extract_social :: "node \<Rightarrow> string" where
  "extract_social listing =
     (let links = social_links (find_all ''a'' has_href listing)
      in if links \<noteq> [] then join '' | '' (slice_to 2 links) else ''N/A'')"

text \<open>
  The body of the loop up to the test of line 136: the row of a listing that is kept,
  \<open>None\<close> for a listing that is not. No operation of the body raises on a parsed tree,
  so the handler of lines 154 and 155 has no branch here.
\<close>

definition extract_listing :: "string \<Rightarrow> node \<Rightarrow> business option" where
  "extract_listing keyword listing =
     (let name = extract_name listing;
          phone = extract_phone listing;
          address = extract_address listing;
          website = extract_website listing;
          category = keyword;
          email = generate_email name;
          social = extract_social listing
      in if name \<noteq> ''N/A'' \<and> 2 < length name
         then Some \<lparr>business_name = name, email_id = email, phone_number = phone,
                    location_address = address, business_category = category,
                    website_url = website, social_media_profiles = social\<rparr>
         else None)"

subsection \<open>The loop over the listings\<close>

text \<open>
  Lines 73 to 155. The state is the list \<open>businesses\<close>, the counter \<open>count\<close> and the
  messages shown so far; the loop leaves early once \<open>count >= max_results\<close>.
\<close>

fun extract_loop ::
  "string \<Rightarrow> int \<Rightarrow> node list \<Rightarrow> business list \<times> int \<times> diag list \<Rightarrow> business list \<times> int \<times> diag list" where
  "extract_loop keyword max_results [] st = st"
| "extract_loop keyword max_results (listing # rest) (businesses, count, shown) =
     (case extract_listing keyword listing of
        None \<Rightarrow> extract_loop keyword max_results rest (businesses, count, shown)
      | Some b \<Rightarrow>
          (let businesses' = businesses @ [b];
               count' = count + 1;
               shown' = shown @ [ExtractedText count' (business_name b)]
           in if count' \<ge> max_results then (businesses', count', shown')
              else extract_loop keyword max_results rest (businesses', count', shown')))"

subsection \<open>The selector cascade\<close>

text \<open>Lines 59 to 69, with the warnings shown on the way.\<close>

definition primary_listings :: "node \<Rightarrow> node list" where
  "primary_listings soup = find_all ''li'' (has_class ''cntanr'') soup"

definition store_details_listings :: "node \<Rightarrow> node list" where
  "store_details_listings soup = find_all ''div'' (has_class ''store-details'') soup"

definition pattern_listings :: "node \<Rightarrow> node list" where
  "pattern_listings soup = find_all ''div'' class_matches_loose soup"

definition find_listings :: "node \<Rightarrow> diag list \<times> node list" where
  "find_listings soup =
     (let listings = primary_listings soup in
      if listings \<noteq> [] then ([], listings)
      else
        (let listings = store_details_listings soup in
         if listings \<noteq> [] then ([PrimaryMissWarning], listings)
         else ([PrimaryMissWarning, AnotherMethodWarning], pattern_listings soup)))"

subsection \<open>The whole function\<close>

text \<open>
  The HTTP client and the markup parser are libraries outside the program: they are the
  parameters \<open>http_get\<close>, from the URL to a response or an exception, and \<open>parse\<close>, from
  the body to the document or an exception. \<open>scrape_body\<close> is the block under \<open>try\<close>
  (lines 34 to 161): the messages shown, and the table returned or the exception raised.
  The empty table is the empty list of rows.
\<close>

definition search_url :: "string \<Rightarrow> string \<Rightarrow> string" where
  "search_url keyword location =
     (let keyword_formatted = replace_char (CHR '' '') (CHR ''-'') (lower keyword);
          location_formatted = replace_char (CHR '' '') (CHR ''-'') (lower location)
      in ''https://www.justdial.com/'' @ location_formatted @ ''/'' @ keyword_formatted)"

definition scrape_body ::
  "(string \<Rightarrow> response outcome) \<Rightarrow> (string \<Rightarrow> node outcome) \<Rightarrow> string \<Rightarrow> string \<Rightarrow> int
     \<Rightarrow> diag list \<times> business list outcome" where
  "scrape_body http_get parse keyword location max_results =
     (let url = search_url keyword location;
          shown = [SearchingInfo keyword location]
      in case http_get url of
           Raised e \<Rightarrow> (shown, Raised e)
         | Returned resp \<Rightarrow>
             if status_code resp \<noteq> 200
             then (shown @ [FailedToFetchError (status_code resp)], Returned [])
             else
               (case parse (content resp) of
                  Raised e \<Rightarrow> (shown, Raised e)
                | Returned soup \<Rightarrow>
                    (let (warnings, listings) = find_listings soup;
                         shown = shown @ warnings @ [FoundInfo (length listings)];
                         (businesses, count, shown) =
                            extract_loop keyword max_results (slice_to max_results listings)
                              ([], 0, shown)
                     in if businesses \<noteq> [] then (shown, Returned businesses)
                        else (shown @ [NoValidDataError], Returned []))))"

text \<open>Lines 27 to 165: the block with its handler, which turns any exception into the empty table.\<close>

definition scrape_justdial ::
  "(string \<Rightarrow> response outcome) \<Rightarrow> (string \<Rightarrow> node outcome) \<Rightarrow> string \<Rightarrow> string \<Rightarrow> int
     \<Rightarrow> diag list \<times> business list outcome" where
  "scrape_justdial http_get parse keyword location max_results =
     (case scrape_body http_get parse keyword location max_results of
        (shown, Raised e) \<Rightarrow> (shown @ [ScrapingError e], Returned [])
      | (shown, Returned df) \<Rightarrow> (shown, Returned df))"

text \<open>The table a call hands to its caller; an exception that escapes hands over none.\<close>

fun result_set :: "diag list \<times> business list outcome \<Rightarrow> business list option" where
  "result_set (shown, Returned df) = Some df"
| "result_set (shown, Raised e) = None"

subsection \<open>Notions the properties are stated with\<close>

text \<open>The test of line 136 on the name a listing resolves to.\<close>

definition acceptable :: "node \<Rightarrow> bool" where
  "acceptable listing = (extract_name listing \<noteq> ''N/A'' \<and> 2 < length (extract_name listing))"

text \<open>
  The loop as the function starts it on a parsed page: over the slice of the listings
  found, from no rows, the counter at zero and the messages shown up to there.
\<close>

definition run_loop :: "string \<Rightarrow> string \<Rightarrow> int \<Rightarrow> node \<Rightarrow> business list \<times> int \<times> diag list" where
  "run_loop keyword location mx soup =
     extract_loop keyword mx (slice_to mx (snd (find_listings soup)))
       ([], 0, [SearchingInfo keyword location] @ fst (find_listings soup) @
               [FoundInfo (length (snd (find_listings soup)))])"

text \<open>The targets of the links of a listing: the \<open>href\<close> of every \<open>a\<close> element that has one, in document order.\<close>

definition link_targets :: "node \<Rightarrow> string list" where
  "link_targets listing = List.map_filter (get_attr ''href'') (find_all ''a'' (\<lambda>d. True) listing)"

text \<open>
  The website as the specification words it: the target of the first link that is an
  absolute HTTP or HTTPS address and does not contain the directory's own domain, \<open>N/A\<close>
  when there is none.
\<close>

definition absolute_http_url :: "string \<Rightarrow> bool" where
  "absolute_http_url h = (prefix ''http://'' h \<or> prefix ''https://'' h)"

definition claimed_website :: "node \<Rightarrow> string" where
  "claimed_website listing =
     (case filter (\<lambda>h. absolute_http_url h \<and> \<not> contains ''justdial'' h) (link_targets listing) of
        [] \<Rightarrow> ''N/A''
      | h # rest \<Rightarrow> h)"

section \<open>Fixtures\<close>

text \<open>
  An HTTP client that answers every request with the given status, one that raises, and
  a parser that returns the given document or raises.
\<close>

definition respond :: "int \<Rightarrow> string \<Rightarrow> response outcome" where
  "respond code url = Returned \<lparr>status_code = code, content = ''<html></html>''\<rparr>"

definition unreachable :: "string \<Rightarrow> response outcome" where
  "unreachable url = Raised ''connection timed out''"

definition parsed_as :: "node \<Rightarrow> string \<Rightarrow> node outcome" where
  "parsed_as soup body = Returned soup"

definition rejecting_parser :: "string \<Rightarrow> node outcome" where
  "rejecting_parser body = Raised ''markup rejected''"

definition document :: "node list \<Rightarrow> node" where
  "document nodes = Element ''[document]'' [] [Element ''html'' [] [Element ''body'' [] nodes]]"

text \<open>A listing of the primary selector: its name in the primary name marker, then further nodes.\<close>

definition cntanr :: "string \<Rightarrow> node list \<Rightarrow> node" where
  "cntanr name rest =
     Element ''li'' [(''class'', ''cntanr'')] (Element ''span'' [(''class'', ''jcn'')] [Text NavigableString name] # rest)"

text \<open>A listing of the primary selector with no name marker and no heading.\<close>

definition nameless :: node where
  "nameless = Element ''li'' [(''class'', ''cntanr'')] [Element ''p'' [] [Text NavigableString ''Sponsored'']]"

definition page_two_named :: node where
  "page_two_named = document [cntanr ''Alpha Cafe'' [], cntanr ''Beta-Bistro & Coffee House'' []]"

definition page_four_named :: node where
  "page_four_named = document [cntanr ''Alpha Cafe'' [], cntanr ''Beta-Bistro & Coffee House'' [],
     cntanr ''Gamma Grill'' [], cntanr ''Delta Diner'' []]"

definition page_nameless_first :: node where
  "page_nameless_first = document [nameless, cntanr ''Alpha Cafe'' []]"

text \<open>A listing whose first link with \<open>http\<close> is the directory's own, its second an outside one.\<close>

definition two_links_listing :: node where
  "two_links_listing = cntanr ''Alpha Cafe''
     [Element ''a'' [(''href'', ''https://www.justdial.com/kochi/alpha-cafe'')] [Text NavigableString ''Details''],
      Element ''a'' [(''href'', ''http://alpha.example.com'')] [Text NavigableString ''Website'']]"

definition page_two_links :: node where
  "page_two_links = document [two_links_listing]"

text \<open>A listing with a relative link, then an outside one.\<close>

definition external_link_listing :: node where
  "external_link_listing = cntanr ''Alpha Cafe''
     [Element ''a'' [(''href'', ''/kochi/alpha-cafe'')] [Text NavigableString ''Details''],
      Element ''a'' [(''href'', ''http://alpha.example.com'')] [Text NavigableString ''Website'']]"




text \<open>A row for the keyword \<open>cafe\<close> with no address and no social media links.\<close>

definition cafe_row :: "string \<Rightarrow> string \<Rightarrow> string \<Rightarrow> string \<Rightarrow> business" where
  "cafe_row name email phone website =
     \<lparr>business_name = name, email_id = email, phone_number = phone, location_address = ''N/A'',
      business_category = ''cafe'', website_url = website, social_media_profiles = ''N/A''\<rparr>"

text \<open>One listing for the primary selector, two different ones for the first fallback.\<close>

definition page_cascade :: node where
  "page_cascade = document
     [cntanr ''Alpha Cafe'' [],
      Element ''div'' [(''class'', ''store-details'')] [Element ''h2'' [] [Text NavigableString ''Gamma Stores'']],
      Element ''div'' [(''class'', ''store-details'')] [Element ''h2'' [] [Text NavigableString ''Delta Stores'']]]"

text \<open>A primary name marker with a two-letter text, beside a heading with a full name.\<close>

definition short_marker_listing :: node where
  "short_marker_listing = cntanr ''AB'' [Element ''h2'' [] [Text NavigableString ''Valid Name'']]"

definition page_short_marker :: node where
  "page_short_marker = document [short_marker_listing, cntanr ''Alpha Cafe'' []]"

section \<open>Properties of the loop and of the paths through the function\<close>


lemma extract_listing_Some_iff: "(\<exists>b. extract_listing keyword listing = Some b) = acceptable listing"
  by (simp add: extract_listing_def acceptable_def Let_def)

lemma extract_listing_fields:
  assumes "extract_listing keyword listing = Some b"
  shows "business_name b = extract_name listing"
    and "email_id b = generate_email (extract_name listing)"
    and "phone_number b = extract_phone listing"
    and "website_url b = extract_website listing"
    and "business_category b = keyword"
    and "acceptable listing"
  using assms by (auto simp: extract_listing_def acceptable_def Let_def split: if_splits)

lemma extract_loop_subset:
  "extract_loop keyword mx ls (bs, c, sh) = (bs', c', sh') \<Longrightarrow>
   set bs' \<subseteq> set bs \<union> {b. \<exists>l \<in> set ls. extract_listing keyword l = Some b}"
proof (induction ls arbitrary: bs c sh)
  case Nil
  then show ?case by simp
next
  case (Cons l ls bs c sh)
  show ?case
  proof (cases "extract_listing keyword l")
    case None
    with Cons.prems have "extract_loop keyword mx ls (bs, c, sh) = (bs', c', sh')" by simp
    from Cons.IH [OF this] show ?thesis by auto
  next
    case (Some b)
    show ?thesis
    proof (cases "c + 1 \<ge> mx")
      case True
      with Some Cons.prems have "bs' = bs @ [b]" by (simp add: Let_def)
      with Some show ?thesis by auto
    next
      case False
      with Some Cons.prems
      have "extract_loop keyword mx ls (bs @ [b], c + 1, sh @ [ExtractedText (c + 1) (business_name b)]) = (bs', c', sh')"
        by (simp add: Let_def)
      from Cons.IH [OF this] Some show ?thesis by auto
    qed
  qed
qed

lemma extract_loop_within_budget:
  "c + int (length ls) \<le> mx \<Longrightarrow>
   fst (extract_loop keyword mx ls (bs, c, sh)) = bs @ List.map_filter (extract_listing keyword) ls"
proof (induction ls arbitrary: bs c sh)
  case Nil
  then show ?case by simp
next
  case (Cons l ls bs c sh)
  show ?case
  proof (cases "extract_listing keyword l")
    case None
    from Cons.prems have "c + int (length ls) \<le> mx" by simp
    from Cons.IH [OF this] None show ?thesis by simp
  next
    case (Some b)
    show ?thesis
    proof (cases "c + 1 \<ge> mx")
      case True
      with Cons.prems have "ls = []" by (cases ls) auto
      with True Some show ?thesis by (simp add: Let_def)
    next
      case False
      from Cons.prems have "(c + 1) + int (length ls) \<le> mx" by simp
      from Cons.IH [OF this] False Some show ?thesis by (simp add: Let_def)
    qed
  qed
qed

lemma length_slice_to: "0 \<le> n \<Longrightarrow> int (length (slice_to n xs)) \<le> n"
  by (simp add: slice_to_def)

lemma length_map_filter_le: "length (List.map_filter f xs) \<le> length xs"
  by (simp add: List.map_filter_def)

lemma length_map_filter_extract:
  "length (List.map_filter (extract_listing keyword) ls) = length (filter acceptable ls)"
proof (induction ls)
  case Nil
  show ?case by simp
next
  case (Cons l ls)
  show ?case
  proof (cases "extract_listing keyword l")
    case None
    then have "\<not> acceptable l" using extract_listing_Some_iff [of keyword l] by simp
    with None Cons.IH show ?thesis by simp
  next
    case (Some b)
    then have "acceptable l" using extract_listing_Some_iff [of keyword l] by simp
    with Some Cons.IH show ?thesis by simp
  qed
qed

text \<open>What a call returns, by the path it takes.\<close>

lemma scrape_justdial_fetch_raised:
  "http_get (search_url keyword location) = Raised e \<Longrightarrow>
   scrape_justdial http_get parse keyword location mx =
     ([SearchingInfo keyword location, ScrapingError e], Returned [])"
  by (simp add: scrape_justdial_def scrape_body_def Let_def)

lemma scrape_justdial_status:
  "http_get (search_url keyword location) = Returned resp \<Longrightarrow> status_code resp \<noteq> 200 \<Longrightarrow>
   scrape_justdial http_get parse keyword location mx =
     ([SearchingInfo keyword location, FailedToFetchError (status_code resp)], Returned [])"
  by (simp add: scrape_justdial_def scrape_body_def Let_def)

lemma scrape_justdial_parse_raised:
  "http_get (search_url keyword location) = Returned resp \<Longrightarrow> status_code resp = 200 \<Longrightarrow>
   parse (content resp) = Raised e \<Longrightarrow>
   scrape_justdial http_get parse keyword location mx =
     ([SearchingInfo keyword location, ScrapingError e], Returned [])"
  by (simp add: scrape_justdial_def scrape_body_def Let_def)

lemma scrape_justdial_parsed:
  "http_get (search_url keyword location) = Returned resp \<Longrightarrow> status_code resp = 200 \<Longrightarrow>
   parse (content resp) = Returned soup \<Longrightarrow>
   scrape_justdial http_get parse keyword location mx =
     (case run_loop keyword location mx soup of
        (businesses, count, shown) \<Rightarrow>
          if businesses \<noteq> [] then (shown, Returned businesses)
          else (shown @ [NoValidDataError], Returned []))"
  by (simp add: scrape_justdial_def scrape_body_def run_loop_def Let_def split: prod.splits)

lemma scrape_justdial_rows:
  assumes "scrape_justdial http_get parse keyword location mx = (shown, Returned df)"
  shows "df = [] \<or> (\<exists>resp soup. http_get (search_url keyword location) = Returned resp \<and>
           status_code resp = 200 \<and> parse (content resp) = Returned soup \<and>
           df = fst (run_loop keyword location mx soup))"
proof (cases "http_get (search_url keyword location)")
  case (Raised e)
  from scrape_justdial_fetch_raised [where http_get = http_get and parse = parse and mx = mx, OF this] assms show ?thesis by simp
next
  case (Returned resp)
  show ?thesis
  proof (cases "status_code resp = 200")
    case False
    from scrape_justdial_status [where http_get = http_get and parse = parse and mx = mx, OF Returned this] assms show ?thesis by simp
  next
    case True
    show ?thesis
    proof (cases "parse (content resp)")
      case (Raised e)
      from scrape_justdial_parse_raised [where http_get = http_get and parse = parse and mx = mx, OF Returned True this] assms show ?thesis by simp
    next
      case soup: (Returned soup)
      from scrape_justdial_parsed [where http_get = http_get and parse = parse and mx = mx, OF Returned True soup] assms
      have "df = [] \<or> df = fst (run_loop keyword location mx soup)"
        by (auto split: prod.splits if_splits)
      with Returned True soup show ?thesis by blast
    qed
  qed
qed

lemma scrape_justdial_row_listing:
  assumes "scrape_justdial http_get parse keyword location mx = (shown, Returned df)"
    and "b \<in> set df"
  shows "\<exists>listing. extract_listing keyword listing = Some b"
proof -
  from scrape_justdial_rows [OF assms(1)] assms(2)
  obtain soup where df: "df = fst (run_loop keyword location mx soup)" by auto
  obtain bs c sh where r: "run_loop keyword location mx soup = (bs, c, sh)"
    by (cases "run_loop keyword location mx soup") auto
  from r have "set bs \<subseteq> set [] \<union> {b. \<exists>l \<in> set (slice_to mx (snd (find_listings soup))). extract_listing keyword l = Some b}"
    unfolding run_loop_def by (rule extract_loop_subset)
  with df r assms(2) show ?thesis by auto
qed

lemma result_set_Some:
  "result_set r = Some df \<Longrightarrow> \<exists>shown. r = (shown, Returned df)"
  by (cases r rule: result_set.cases) auto

text \<open>The rows of a call on a parsed page, when the budget is not negative.\<close>

lemma run_loop_rows:
  assumes "0 \<le> mx"
  shows "fst (run_loop keyword location mx soup) =
         List.map_filter (extract_listing keyword) (take (nat mx) (snd (find_listings soup)))"
proof -
  from assms have "0 + int (length (slice_to mx (snd (find_listings soup)))) \<le> mx"
    using length_slice_to [of mx "snd (find_listings soup)"] by simp
  from extract_loop_within_budget [OF this] assms show ?thesis
    by (simp add: run_loop_def slice_to_def)
qed

lemma scrape_justdial_parsed_rows:
  assumes "http_get (search_url keyword location) = Returned resp"
    and "status_code resp = 200"
    and "parse (content resp) = Returned soup"
  shows "result_set (scrape_justdial http_get parse keyword location mx) =
           Some (fst (run_loop keyword location mx soup))"
  using scrape_justdial_parsed [where http_get = http_get and parse = parse and mx = mx, OF assms]
  by (auto split: prod.splits)

lemma extract_name_of_row:
  assumes "result_set (scrape_justdial http_get parse keyword location mx) = Some df"
    and "b \<in> set df"
  shows "\<exists>listing. extract_listing keyword listing = Some b"
proof -
  from result_set_Some [OF assms(1)] obtain shown
    where "scrape_justdial http_get parse keyword location mx = (shown, Returned df)" ..
  from scrape_justdial_row_listing [OF this assms(2)] show ?thesis .
qed

text \<open>Lower-casing neither makes nor removes a space or a hyphen.\<close>

lemma of_char_lower_char:
  "(of_char (lower_char x) :: nat) =
     (if (65 \<le> (of_char x :: nat) \<and> (of_char x :: nat) \<le> 90) \<or>
         (192 \<le> (of_char x :: nat) \<and> (of_char x :: nat) \<le> 222 \<and> (of_char x :: nat) \<noteq> 215)
      then of_char x + 32 else of_char x)"
  by (simp add: lower_char_def Let_def)

lemma lower_char_space: "(lower_char x = CHR '' '') = (x = CHR '' '')"
proof
  assume a: "lower_char x = CHR '' ''"
  then have "(of_char (lower_char x) :: nat) = 32" by simp
  then have "(of_char x :: nat) = 32" unfolding of_char_lower_char by (simp split: if_splits)
  then have "lower_char x = x" by (simp add: lower_char_def)
  with a show "x = CHR '' ''" by simp
next
  assume "x = CHR '' ''"
  then show "lower_char x = CHR '' ''" by (simp add: lower_char_def)
qed

lemma lower_char_hyphen: "(lower_char x = CHR ''-'') = (x = CHR ''-'')"
proof
  assume a: "lower_char x = CHR ''-''"
  then have "(of_char (lower_char x) :: nat) = 45" by simp
  then have "(of_char x :: nat) = 45" unfolding of_char_lower_char by (simp split: if_splits)
  then have "lower_char x = x" by (simp add: lower_char_def)
  with a show "x = CHR ''-''" by simp
next
  assume "x = CHR ''-''"
  then show "lower_char x = CHR ''-''" by (simp add: lower_char_def)
qed

lemma lower_remove_space: "remove_char (CHR '' '') (lower s) = lower (remove_char (CHR '' '') s)"
  by (induction s) (simp_all add: remove_char_def lower_def lower_char_space)

lemma lower_remove_hyphen: "remove_char (CHR ''-'') (lower s) = lower (remove_char (CHR ''-'') s)"
  by (induction s) (simp_all add: remove_char_def lower_def lower_char_hyphen)

text \<open>The website: the first link whose target contains \<open>http\<close> decides.\<close>

lemma contains_nonempty: "contains (c # cs) s \<Longrightarrow> s \<noteq> []"
  by (cases s) auto

lemma first_http_link:
  "(case filter (\<lambda>d. tag_name d = Some ''a'' \<and> href_matches_http d) ds of
      [] \<Rightarrow> None | d # rest \<Rightarrow> get_attr ''href'' d) =
   (case filter (contains ''http'')
           (List.map_filter (get_attr ''href'') (filter (\<lambda>d. tag_name d = Some ''a'' \<and> True) ds)) of
      [] \<Rightarrow> None | h # rest \<Rightarrow> Some h)"
proof (induction ds)
  case Nil
  show ?case by (simp add: List.map_filter_simps)
next
  case (Cons d ds)
  show ?case
  proof (cases "tag_name d = Some ''a''")
    case False
    with Cons.IH show ?thesis by simp
  next
    case True
    show ?thesis
    proof (cases "get_attr ''href'' d")
      case None
      with True Cons.IH show ?thesis by (simp add: href_matches_http_def List.map_filter_simps)
    next
      case (Some h)
      with True Cons.IH show ?thesis by (simp add: href_matches_http_def List.map_filter_simps)
    qed
  qed
qed

lemma extract_website_first_http:
  "extract_website listing =
     (case filter (contains ''http'') (link_targets listing) of
        [] \<Rightarrow> ''N/A''
      | h # rest \<Rightarrow> if contains ''justdial'' h then ''N/A'' else h)"
proof -
  let ?ds = "descendants listing"
  let ?f = "filter (\<lambda>d. tag_name d = Some ''a'' \<and> href_matches_http d) ?ds"
  have eq: "(case ?f of [] \<Rightarrow> None | d # rest \<Rightarrow> get_attr ''href'' d) =
     (case filter (contains ''http'') (link_targets listing) of [] \<Rightarrow> None | h # rest \<Rightarrow> Some h)"
    unfolding link_targets_def find_all_def by (rule first_http_link)
  show ?thesis
  proof (cases ?f)
    case Nil
    with eq have "filter (contains ''http'') (link_targets listing) = []"
      by (simp split: list.splits)
    with Nil show ?thesis by (simp add: extract_website_def find_first_def find_all_def)
  next
    case (Cons d rest)
    then have "d \<in> set ?f" by simp
    then have "href_matches_http d" by simp
    then obtain h where h: "get_attr ''href'' d = Some h" and c: "contains ''http'' h"
      by (auto simp: href_matches_http_def split: option.splits)
    from c have ne: "h \<noteq> []" by (rule contains_nonempty)
    from eq Cons h obtain rest' where "filter (contains ''http'') (link_targets listing) = h # rest'"
      by (auto split: list.splits)
    with Cons h ne show ?thesis by (simp add: extract_website_def find_first_def find_all_def)
  qed
qed






section \<open>The claims\<close>

text \<open>
  C1: the table returned has at most \<open>max_results\<close> rows, whatever the page, the keyword
  and the location. The budget is the value of a slider from 3 to 20; the bound is proved
  for every budget that is not negative.
\<close>

theorem result_set_at_most_max_results:
  assumes "0 \<le> max_results"
    and "result_set (scrape_justdial http_get parse keyword location max_results) = Some df"
  shows "int (length df) \<le> max_results"
proof -
  from result_set_Some [OF assms(2)] obtain shown
    where "scrape_justdial http_get parse keyword location max_results = (shown, Returned df)" ..
  from scrape_justdial_rows [OF this]
  show ?thesis
  proof
    assume "df = []"
    with assms(1) show ?thesis by simp
  next
    assume "\<exists>resp soup. http_get (search_url keyword location) = Returned resp \<and>
           status_code resp = 200 \<and> parse (content resp) = Returned soup \<and>
           df = fst (run_loop keyword location max_results soup)"
    then obtain soup where "df = fst (run_loop keyword location max_results soup)" by blast
    with run_loop_rows [OF assms(1)]
    have "df = List.map_filter (extract_listing keyword) (take (nat max_results) (snd (find_listings soup)))"
      by simp
    then have "length df \<le> length (take (nat max_results) (snd (find_listings soup)))"
      using length_map_filter_le [of "extract_listing keyword" "take (nat max_results) (snd (find_listings soup))"]
      by (simp only:)
    also have "\<dots> \<le> nat max_results" by simp
    finally show ?thesis using assms(1) by simp
  qed
qed

theorem result_set_at_most_max_results_witness:
  "(0::int) \<le> 3
   \<and> result_set (scrape_justdial (respond 200) (parsed_as page_four_named) ''cafe'' ''kochi'' 3) =
       Some [cafe_row ''Alpha Cafe'' ''info@alphacafe.com'' ''N/A'' ''N/A'',
             cafe_row ''Beta-Bistro & Coffee House'' ''info@betabistro&coff.com'' ''N/A'' ''N/A'',
             cafe_row ''Gamma Grill'' ''info@gammagrill.com'' ''N/A'' ''N/A'']
   \<and> int (length [cafe_row ''Alpha Cafe'' ''info@alphacafe.com'' ''N/A'' ''N/A'',
             cafe_row ''Beta-Bistro & Coffee House'' ''info@betabistro&coff.com'' ''N/A'' ''N/A'',
             cafe_row ''Gamma Grill'' ''info@gammagrill.com'' ''N/A'' ''N/A'']) \<le> 3"
proof -
  have a: "(0::int) \<le> 3" by simp
  have b: "result_set (scrape_justdial (respond 200) (parsed_as page_four_named) ''cafe'' ''kochi'' 3) =
       Some [cafe_row ''Alpha Cafe'' ''info@alphacafe.com'' ''N/A'' ''N/A'',
             cafe_row ''Beta-Bistro & Coffee House'' ''info@betabistro&coff.com'' ''N/A'' ''N/A'',
             cafe_row ''Gamma Grill'' ''info@gammagrill.com'' ''N/A'' ''N/A'']" by code_simp
  from a b result_set_at_most_max_results [OF a b] show ?thesis by (intro conjI)
qed

text \<open>
  C2: every row of a table returned has a business name that is not \<open>N/A\<close> and is longer
  than two characters; a listing whose name resolves to \<open>N/A\<close> or to at most two
  characters gives no row.
\<close>

theorem rows_have_resolved_name:
  "(result_set (scrape_justdial http_get parse keyword location max_results) = Some df \<longrightarrow>
      (\<forall>b \<in> set df. business_name b \<noteq> ''N/A'' \<and> 2 < length (business_name b)))
   \<and> (extract_name listing = ''N/A'' \<or> length (extract_name listing) \<le> 2 \<longrightarrow>
        extract_listing keyword listing = None)"
proof (intro conjI impI ballI)
  fix b
  assume "result_set (scrape_justdial http_get parse keyword location max_results) = Some df"
    and "b \<in> set df"
  from extract_name_of_row [OF this] obtain l where l: "extract_listing keyword l = Some b" ..
  from extract_listing_fields(1,6) [OF l]
  show "business_name b \<noteq> ''N/A''" and "2 < length (business_name b)"
    by (simp_all add: acceptable_def)
next
  assume "extract_name listing = ''N/A'' \<or> length (extract_name listing) \<le> 2"
  then show "extract_listing keyword listing = None"
    by (auto simp: extract_listing_def Let_def)
qed

theorem rows_have_resolved_name_witness:
  "result_set (scrape_justdial (respond 200) (parsed_as page_short_marker) ''cafe'' ''kochi'' 10) =
     Some [cafe_row ''Alpha Cafe'' ''info@alphacafe.com'' ''N/A'' ''N/A'']
   \<and> business_name (cafe_row ''Alpha Cafe'' ''info@alphacafe.com'' ''N/A'' ''N/A'') \<noteq> ''N/A''
   \<and> 2 < length (business_name (cafe_row ''Alpha Cafe'' ''info@alphacafe.com'' ''N/A'' ''N/A''))
   \<and> extract_name short_marker_listing = ''AB''
   \<and> extract_listing ''cafe'' short_marker_listing = None"
proof -
  have a: "result_set (scrape_justdial (respond 200) (parsed_as page_short_marker) ''cafe'' ''kochi'' 10) =
     Some [cafe_row ''Alpha Cafe'' ''info@alphacafe.com'' ''N/A'' ''N/A'']" by code_simp
  have b: "extract_name short_marker_listing = ''AB''" by code_simp
  from rows_have_resolved_name [where http_get = "respond 200" and parse = "parsed_as page_short_marker"
      and keyword = "''cafe''" and location = "''kochi''" and max_results = 10
      and df = "[cafe_row ''Alpha Cafe'' ''info@alphacafe.com'' ''N/A'' ''N/A'']"
      and listing = short_marker_listing] a b
  show ?thesis by simp
qed

text \<open>
  C3: in every row of a table returned, the e-mail address is \<open>info@\<close>, then the first 15
  characters of the business name lower-cased with its spaces and hyphens removed, then
  \<open>.com\<close>. Removing before lower-casing, as the formula of the specification has it,
  gives the same string. The address is never \<open>N/A\<close>.
\<close>

theorem rows_email_from_name:
  assumes "result_set (scrape_justdial http_get parse keyword location max_results) = Some df"
    and "b \<in> set df"
  shows "email_id b =
           ''info@'' @ take 15 (remove_char (CHR ''-'') (remove_char (CHR '' '') (lower (business_name b)))) @ ''.com''
     \<and> email_id b =
           ''info@'' @ take 15 (lower (remove_char (CHR ''-'') (remove_char (CHR '' '') (business_name b)))) @ ''.com''
     \<and> email_id b \<noteq> ''N/A''"
proof -
  from extract_name_of_row [OF assms] obtain l where l: "extract_listing keyword l = Some b" ..
  from extract_listing_fields(1,2,6) [OF l]
  have e: "email_id b =
           ''info@'' @ take 15 (remove_char (CHR ''-'') (remove_char (CHR '' '') (lower (business_name b)))) @ ''.com''"
    by (simp add: generate_email_def acceptable_def)
  then have "email_id b =
           ''info@'' @ take 15 (lower (remove_char (CHR ''-'') (remove_char (CHR '' '') (business_name b)))) @ ''.com''"
    by (simp add: lower_remove_space lower_remove_hyphen)
  moreover from e have "email_id b \<noteq> ''N/A''" by simp
  ultimately show ?thesis using e by (intro conjI)
qed

theorem rows_email_from_name_witness:
  "result_set (scrape_justdial (respond 200) (parsed_as page_two_named) ''cafe'' ''kochi'' 10) =
     Some [cafe_row ''Alpha Cafe'' ''info@alphacafe.com'' ''N/A'' ''N/A'',
           cafe_row ''Beta-Bistro & Coffee House'' ''info@betabistro&coff.com'' ''N/A'' ''N/A'']
   \<and> ''info@betabistro&coff.com'' =
       ''info@'' @ take 15 (remove_char (CHR ''-'') (remove_char (CHR '' '') (lower ''Beta-Bistro & Coffee House''))) @ ''.com''
   \<and> ''info@betabistro&coff.com'' =
       ''info@'' @ take 15 (lower (remove_char (CHR ''-'') (remove_char (CHR '' '') ''Beta-Bistro & Coffee House''))) @ ''.com''
   \<and> ''info@betabistro&coff.com'' \<noteq> ''N/A''"
proof -
  have a: "result_set (scrape_justdial (respond 200) (parsed_as page_two_named) ''cafe'' ''kochi'' 10) =
     Some [cafe_row ''Alpha Cafe'' ''info@alphacafe.com'' ''N/A'' ''N/A'',
           cafe_row ''Beta-Bistro & Coffee House'' ''info@betabistro&coff.com'' ''N/A'' ''N/A'']"
    by code_simp
  have b: "cafe_row ''Beta-Bistro & Coffee House'' ''info@betabistro&coff.com'' ''N/A'' ''N/A''
      \<in> set [cafe_row ''Alpha Cafe'' ''info@alphacafe.com'' ''N/A'' ''N/A'',
           cafe_row ''Beta-Bistro & Coffee House'' ''info@betabistro&coff.com'' ''N/A'' ''N/A'']"
    by simp
  have n: "business_name (cafe_row ''Beta-Bistro & Coffee House'' ''info@betabistro&coff.com'' ''N/A'' ''N/A'') =
      ''Beta-Bistro & Coffee House''" by (simp add: cafe_row_def)
  have e: "email_id (cafe_row ''Beta-Bistro & Coffee House'' ''info@betabistro&coff.com'' ''N/A'' ''N/A'') =
      ''info@betabistro&coff.com''" by (simp add: cafe_row_def)
  from rows_email_from_name [OF a b]
  have "''info@betabistro&coff.com'' =
       ''info@'' @ take 15 (remove_char (CHR ''-'') (remove_char (CHR '' '') (lower ''Beta-Bistro & Coffee House''))) @ ''.com''
   \<and> ''info@betabistro&coff.com'' =
       ''info@'' @ take 15 (lower (remove_char (CHR ''-'') (remove_char (CHR '' '') ''Beta-Bistro & Coffee House''))) @ ''.com''
   \<and> ''info@betabistro&coff.com'' \<noteq> ''N/A''"
    unfolding n e .
  with a show ?thesis by (rule conjI)
qed

text \<open>
  C4, as amended: for a budget that is not negative, the number of rows is the number of
  acceptable listings among the first \<open>max_results\<close> listings of the page. A listing
  that is skipped inside that window is not made up for by a later one.
\<close>

theorem rows_are_acceptable_among_first_max_results:
  assumes "0 \<le> max_results"
    and "http_get (search_url keyword location) = Returned resp"
    and "status_code resp = 200"
    and "parse (content resp) = Returned soup"
  shows "map_option length (result_set (scrape_justdial http_get parse keyword location max_results)) =
           Some (length (filter acceptable (take (nat max_results) (snd (find_listings soup)))))"
  using scrape_justdial_parsed_rows [where http_get = http_get and parse = parse and mx = max_results, OF assms(2-4)]
    run_loop_rows [OF assms(1), of keyword location soup]
    length_map_filter_extract [of keyword "take (nat max_results) (snd (find_listings soup))"]
  by simp

theorem rows_are_acceptable_among_first_max_results_witness:
  "(0::int) \<le> 2
   \<and> respond 200 (search_url ''cafe'' ''kochi'') = Returned \<lparr>status_code = 200, content = ''<html></html>''\<rparr>
   \<and> status_code \<lparr>status_code = 200, content = ''<html></html>''\<rparr> = 200
   \<and> parsed_as page_nameless_first (content \<lparr>status_code = 200, content = ''<html></html>''\<rparr>) = Returned page_nameless_first
   \<and> map_option length (result_set (scrape_justdial (respond 200) (parsed_as page_nameless_first) ''cafe'' ''kochi'' 2)) = Some 1
   \<and> length (filter acceptable (take (nat 2) (snd (find_listings page_nameless_first)))) = 1"
proof -
  have a: "(0::int) \<le> 2" by simp
  have b: "respond 200 (search_url ''cafe'' ''kochi'') = Returned \<lparr>status_code = 200, content = ''<html></html>''\<rparr>"
    by (simp add: respond_def)
  have c: "status_code \<lparr>status_code = 200, content = ''<html></html>''\<rparr> = 200" by simp
  have d: "parsed_as page_nameless_first (content \<lparr>status_code = 200, content = ''<html></html>''\<rparr>) = Returned page_nameless_first"
    by (simp add: parsed_as_def)
  have e: "length (filter acceptable (take (nat 2) (snd (find_listings page_nameless_first)))) = 1"
    by code_simp
  from rows_are_acceptable_among_first_max_results [where http_get = "respond 200"
      and parse = "parsed_as page_nameless_first", OF a b c d] a b c d e
  show ?thesis by simp
qed

text \<open>
  C4 as stated fails: on a page whose first listing has no name and whose second has
  one, a budget of 1 gives no row, while the page has one acceptable listing.
\<close>

theorem skipped_listing_uses_budget_counterexample:
  "result_set (scrape_justdial (respond 200) (parsed_as page_nameless_first) ''cafe'' ''kochi'' 1) = Some []
   \<and> min (nat 1) (length (filter acceptable (snd (find_listings page_nameless_first)))) = 1"
  by code_simp

text \<open>
  C5: the claim has the website be the first link that is an absolute HTTP or HTTPS
  address outside the directory. For a listing whose first link with \<open>http\<close> points at
  the directory and whose second is an outside one, the function returns \<open>N/A\<close>: the
  search of line 107 picks one link, and the test of line 110 is made on that link only.
\<close>

theorem website_misses_external_second_link:
  "result_set (scrape_justdial (respond 200) (parsed_as page_two_links) ''cafe'' ''kochi'' 10) =
     Some [cafe_row ''Alpha Cafe'' ''info@alphacafe.com'' ''N/A'' ''N/A'']
   \<and> link_targets two_links_listing =
       [''https://www.justdial.com/kochi/alpha-cafe'', ''http://alpha.example.com'']
   \<and> claimed_website two_links_listing = ''http://alpha.example.com''"
  by code_simp




text \<open>
  C7: when the primary selector matches at least one element, the listings are exactly
  its matches and neither fallback warning is shown; the function runs its loop over
  those matches only.
\<close>

theorem primary_selector_short_circuits:
  assumes "primary_listings soup \<noteq> []"
    and "http_get (search_url keyword location) = Returned resp"
    and "status_code resp = 200"
    and "parse (content resp) = Returned soup"
  shows "find_listings soup = ([], primary_listings soup)
     \<and> scrape_justdial http_get parse keyword location max_results =
      (case extract_loop keyword max_results (slice_to max_results (primary_listings soup))
              ([], 0, [SearchingInfo keyword location, FoundInfo (length (primary_listings soup))]) of
         (businesses, count, shown) \<Rightarrow>
           if businesses \<noteq> [] then (shown, Returned businesses)
           else (shown @ [NoValidDataError], Returned []))"
proof -
  from assms(1) have f: "find_listings soup = ([], primary_listings soup)"
    by (simp add: find_listings_def Let_def)
  from scrape_justdial_parsed [where http_get = http_get and parse = parse and mx = max_results, OF assms(2-4)] f
  have "scrape_justdial http_get parse keyword location max_results =
      (case extract_loop keyword max_results (slice_to max_results (primary_listings soup))
              ([], 0, [SearchingInfo keyword location, FoundInfo (length (primary_listings soup))]) of
         (businesses, count, shown) \<Rightarrow>
           if businesses \<noteq> [] then (shown, Returned businesses)
           else (shown @ [NoValidDataError], Returned []))"
    by (simp add: run_loop_def)
  with f show ?thesis by (intro conjI)
qed

theorem primary_selector_short_circuits_witness:
  "primary_listings page_cascade = [cntanr ''Alpha Cafe'' []]
   \<and> length (store_details_listings page_cascade) = 2
   \<and> find_listings page_cascade = ([], primary_listings page_cascade)
   \<and> scrape_justdial (respond 200) (parsed_as page_cascade) ''cafe'' ''kochi'' 10 =
       ([SearchingInfo ''cafe'' ''kochi'', FoundInfo 1, ExtractedText 1 ''Alpha Cafe''],
        Returned [cafe_row ''Alpha Cafe'' ''info@alphacafe.com'' ''N/A'' ''N/A''])"
proof -
  have p: "primary_listings page_cascade = [cntanr ''Alpha Cafe'' []]" by code_simp
  then have a: "primary_listings page_cascade \<noteq> []" by simp
  have s: "length (store_details_listings page_cascade) = 2" by code_simp
  have b: "respond 200 (search_url ''cafe'' ''kochi'') = Returned \<lparr>status_code = 200, content = ''<html></html>''\<rparr>"
    by (simp add: respond_def)
  have c: "status_code \<lparr>status_code = 200, content = ''<html></html>''\<rparr> = 200" by simp
  have d: "parsed_as page_cascade (content \<lparr>status_code = 200, content = ''<html></html>''\<rparr>) = Returned page_cascade"
    by (simp add: parsed_as_def)
  have e: "(case extract_loop ''cafe'' 10 (slice_to 10 [cntanr ''Alpha Cafe'' []])
              ([], 0, [SearchingInfo ''cafe'' ''kochi'', FoundInfo (length [cntanr ''Alpha Cafe'' []])]) of
         (businesses, count, shown) \<Rightarrow>
           if businesses \<noteq> [] then (shown, Returned businesses)
           else (shown @ [NoValidDataError], Returned [])) =
       ([SearchingInfo ''cafe'' ''kochi'', FoundInfo 1, ExtractedText 1 ''Alpha Cafe''],
        Returned [cafe_row ''Alpha Cafe'' ''info@alphacafe.com'' ''N/A'' ''N/A''])"
    by code_simp
  from primary_selector_short_circuits [where http_get = "respond 200" and parse = "parsed_as page_cascade"
      and keyword = "''cafe''" and location = "''kochi''" and max_results = 10, OF a b c d]
  have "find_listings page_cascade = ([], primary_listings page_cascade)
     \<and> scrape_justdial (respond 200) (parsed_as page_cascade) ''cafe'' ''kochi'' 10 =
       ([SearchingInfo ''cafe'' ''kochi'', FoundInfo 1, ExtractedText 1 ''Alpha Cafe''],
        Returned [cafe_row ''Alpha Cafe'' ''info@alphacafe.com'' ''N/A'' ''N/A''])"
    unfolding p e .
  with p s show ?thesis by (intro conjI) simp_all
qed

text \<open>
  C8: the call never lets an exception escape. Whatever the HTTP client and the parser
  do, raising included, the function returns a table, with rows or empty.
\<close>

theorem scrape_justdial_always_returns:
  "(\<exists>shown df. scrape_justdial http_get parse keyword location max_results = (shown, Returned df))
   \<and> result_set (scrape_justdial http_get parse keyword location max_results) \<noteq> None"
  by (auto simp: scrape_justdial_def split: prod.splits outcome.splits)

theorem scrape_justdial_always_returns_witness:
  "result_set (scrape_justdial unreachable (parsed_as page_two_named) ''cafe'' ''kochi'' 10) = Some []
   \<and> result_set (scrape_justdial (respond 200) rejecting_parser ''cafe'' ''kochi'' 10) = Some []
   \<and> result_set (scrape_justdial (respond 200) (parsed_as page_two_named) ''cafe'' ''kochi'' 10) \<noteq> None"
proof -
  have a: "result_set (scrape_justdial unreachable (parsed_as page_two_named) ''cafe'' ''kochi'' 10) = Some []"
    by (simp add: scrape_justdial_def scrape_body_def unreachable_def Let_def)
  have b: "result_set (scrape_justdial (respond 200) rejecting_parser ''cafe'' ''kochi'' 10) = Some []"
    by (simp add: scrape_justdial_def scrape_body_def respond_def rejecting_parser_def Let_def)
  from a b scrape_justdial_always_returns [of "respond 200" "parsed_as page_two_named" "''cafe''" "''kochi''" 10]
  show ?thesis by simp
qed

text \<open>
  C9: when the fetch returns a status other than 200, the function returns the empty
  table after showing the search and the failure only. The parser does not occur in the
  result: no listing is looked for and none is read.
\<close>

theorem fetch_status_not_200_empty:
  assumes "http_get (search_url keyword location) = Returned resp"
    and "status_code resp \<noteq> 200"
  shows "scrape_justdial http_get parse keyword location max_results =
           ([SearchingInfo keyword location, FailedToFetchError (status_code resp)], Returned [])"
  using assms by (simp add: scrape_justdial_def scrape_body_def Let_def)

theorem fetch_status_not_200_empty_witness:
  "respond 404 (search_url ''cafe'' ''kochi'') = Returned \<lparr>status_code = 404, content = ''<html></html>''\<rparr>
   \<and> scrape_justdial (respond 404) (parsed_as page_two_named) ''cafe'' ''kochi'' 10 =
       ([SearchingInfo ''cafe'' ''kochi'', FailedToFetchError 404], Returned [])"
proof -
  have r: "respond 404 (search_url ''cafe'' ''kochi'') = Returned \<lparr>status_code = 404, content = ''<html></html>''\<rparr>"
    by (simp add: respond_def)
  have n: "status_code \<lparr>status_code = 404, content = ''<html></html>''\<rparr> \<noteq> 200" by simp
  from fetch_status_not_200_empty [where http_get = "respond 404" and parse = "parsed_as page_two_named"
      and max_results = 10, OF r n] r
  show ?thesis by simp
qed

text \<open>
  C10: when a primary name marker is found and its text is not exactly \<open>N/A\<close>, that text
  is the name, whatever headings the listing has; when that text has at most two
  characters, the listing gives no row.
\<close>

theorem heading_fallback_only_for_sentinel:
  assumes "primary_name_tag listing = Some t"
    and "get_text t \<noteq> ''N/A''"
  shows "extract_name listing = get_text t
     \<and> (length (get_text t) \<le> 2 \<longrightarrow> extract_listing keyword listing = None)"
proof -
  from assms have n: "extract_name listing = get_text t" by (simp add: extract_name_def)
  then have "length (get_text t) \<le> 2 \<longrightarrow> extract_listing keyword listing = None"
    by (simp add: extract_listing_def Let_def)
  with n show ?thesis by (intro conjI)
qed

theorem heading_fallback_only_for_sentinel_witness:
  "primary_name_tag short_marker_listing = Some (Element ''span'' [(''class'', ''jcn'')] [Text NavigableString ''AB''])
   \<and> get_text (Element ''span'' [(''class'', ''jcn'')] [Text NavigableString ''AB'']) = ''AB''
   \<and> map_option get_text (heading_name_tag short_marker_listing) = Some ''Valid Name''
   \<and> extract_name short_marker_listing = ''AB''
   \<and> extract_listing ''cafe'' short_marker_listing = None"
proof -
  have a: "primary_name_tag short_marker_listing = Some (Element ''span'' [(''class'', ''jcn'')] [Text NavigableString ''AB''])"
    by code_simp
  have g: "get_text (Element ''span'' [(''class'', ''jcn'')] [Text NavigableString ''AB'']) = ''AB''" by code_simp
  then have b: "get_text (Element ''span'' [(''class'', ''jcn'')] [Text NavigableString ''AB'']) \<noteq> ''N/A''" by simp
  have h: "map_option get_text (heading_name_tag short_marker_listing) = Some ''Valid Name''" by code_simp
  from heading_fallback_only_for_sentinel [OF a b, of "''cafe''"] a g h show ?thesis by simp
qed

end
